theory Spec2Isabelle
  imports Complex_Main "HOL-Library.Log_Nat"
begin

section \<open>The ephemeral cache (src/src/cache.ts)\<close>

text \<open>
  The class \<^verbatim>\<open>Cache\<close> wraps a \<^verbatim>\<open>Map<string, { value: number; expireAt?: number }>\<close>.
  An entry is a record; the optional field \<^verbatim>\<open>expireAt\<close> is an option (\<open>None\<close> is
  \<^verbatim>\<open>undefined\<close>). The field \<^verbatim>\<open>value\<close> is called \<open>val\<close> here. The numbers stored are
  request counts and epoch milliseconds, modelled as unbounded integers. The map is a
  partial function: no operation of the class depends on the insertion order. Every
  method mutates the map in place; the model takes the map and returns the new one. Every
  read of \<^verbatim>\<open>Date.now()\<close> is an explicit argument \<open>now\<close>.
\<close>

record entry =
  val :: int
  expireAt :: "int option"

type_synonym cache = "string \<rightharpoonup> entry"

text \<open>
  \<open>TypeError\<close> is what the runtime raises when a property of \<^verbatim>\<open>undefined\<close> is read;
  \<open>Error msg\<close> is \<^verbatim>\<open>throw new Error(msg)\<close>.
\<close>

datatype error = TypeError | Error string

text \<open>\<^verbatim>\<open>isBlocked\<close> returns the map, the flag \<^verbatim>\<open>blocked\<close> and \<^verbatim>\<open>reset\<close>.\<close>

definition isBlocked :: "cache \<Rightarrow> string \<Rightarrow> int \<Rightarrow> cache \<times> bool \<times> int" where
  "isBlocked c identifier now =
     (case c identifier of
        None \<Rightarrow> (c, False, 0)
      | Some e \<Rightarrow>
          if val e < now then (c(identifier := None), False, 0)
          else (c, True, val e))"

definition blockUntil :: "cache \<Rightarrow> string \<Rightarrow> int \<Rightarrow> cache" where
  "blockUntil c identifier reset_at = c(identifier \<mapsto> \<lparr>val = reset_at, expireAt = None\<rparr>)"

text \<open>
  \<^verbatim>\<open>set\<close> stores \<^verbatim>\<open>expireAt: this.cache.get(key)?.expireAt ?? 0\<close>: the old instant when the
  entry exists and has one, and 0 otherwise.
\<close>

definition set_c :: "cache \<Rightarrow> string \<Rightarrow> int \<Rightarrow> cache" where
  "set_c c key v =
     c(key \<mapsto> \<lparr>val = v,
                expireAt = Some (case c key of
                                   None \<Rightarrow> 0
                                 | Some e \<Rightarrow> (case expireAt e of None \<Rightarrow> 0 | Some x \<Rightarrow> x))\<rparr>)"

text \<open>
  \<^verbatim>\<open>get\<close> is \<^verbatim>\<open>this.cache.get(key)?.value || null\<close>: \<^verbatim>\<open>null\<close> for a missing key and for
  the falsy value 0. It reads no clock and writes nothing.
\<close>

definition get :: "cache \<Rightarrow> string \<Rightarrow> int option" where
  "get c key =
     (case c key of
        None \<Rightarrow> None
      | Some e \<Rightarrow> if val e = 0 then None else Some (val e))"

text \<open>
  \<^verbatim>\<open>cleanup\<close> deletes every entry whose \<^verbatim>\<open>expireAt\<close> is truthy (defined and not 0) and not
  after \<open>now\<close>.
\<close>

definition cleanup :: "cache \<Rightarrow> int \<Rightarrow> cache" where
  "cleanup c now =
     (\<lambda>key. case c key of
        None \<Rightarrow> None
      | Some e \<Rightarrow>
          (case expireAt e of
             None \<Rightarrow> Some e
           | Some x \<Rightarrow> if x \<noteq> 0 \<and> x \<le> now then None else Some e))"

definition incr :: "cache \<Rightarrow> string \<Rightarrow> int \<Rightarrow> cache \<times> int" where
  "incr c key now =
     (let c1 = cleanup c now;
          v = (case c1 key of None \<Rightarrow> 0 | Some e \<Rightarrow> val e) + 1
      in (set_c c1 key v, v))"

text \<open>
  \<^verbatim>\<open>expire\<close> reads \<^verbatim>\<open>this.cache.get(key)!.value\<close>: the \<^verbatim>\<open>!\<close> is erased at compile time, so
  on a missing key the property access raises a TypeError before the map is written.
\<close>

definition expire :: "cache \<Rightarrow> string \<Rightarrow> int \<Rightarrow> int \<Rightarrow> error + cache" where
  "expire c key duration now =
     (case c key of
        None \<Rightarrow> Inl TypeError
      | Some e \<Rightarrow> Inr (c(key \<mapsto> \<lparr>val = val e, expireAt = Some (now + duration)\<rparr>)))"

section \<open>The algorithms (src/src/single.ts)\<close>

text \<open>
  A verdict is the object an algorithm returns. The field \<^verbatim>\<open>pending\<close> is always
  \<^verbatim>\<open>Promise.resolve()\<close> and is left out. \<^verbatim>\<open>remaining\<close> is a JavaScript number that
  can be \<^verbatim>\<open>NaN\<close> in the sliding window (a remainder by zero), so it has a type of its
  own; every other number of the model is an integer.
\<close>

datatype jsnumber = Num int | NaN

record verdict =
  success :: bool
  limit :: int
  remaining :: jsnumber
  reset :: int

text \<open>
  One call of an algorithm reads \<^verbatim>\<open>Date.now()\<close> at up to four places: at its entry (the
  window index), in \<^verbatim>\<open>isBlocked\<close>, in the \<^verbatim>\<open>cleanup\<close> of \<^verbatim>\<open>incr\<close> and in \<^verbatim>\<open>expire\<close>.
  The four readings of a call are a record; \<open>allAt now\<close> is a call during which the
  clock does not move.
\<close>

record readings =
  atEntry :: int
  atIsBlocked :: int
  atCleanup :: int
  atExpire :: int

definition allAt :: "int \<Rightarrow> readings" where
  "allAt now = \<lparr>atEntry = now, atIsBlocked = now, atCleanup = now, atExpire = now\<rparr>"

text \<open>
  \<^verbatim>\<open>ctx.cache\<close> is optional: \<open>None\<close> when no cache is configured. An algorithm is the
  closure a factory returns: from the context, the identifier and the clock readings to
  an error or the context after the call and the verdict.
\<close>

type_synonym ctx = "cache option"

type_synonym algorithm = "ctx \<Rightarrow> string \<Rightarrow> readings \<Rightarrow> error + ctx \<times> verdict"

text \<open>
  \<^verbatim>\<open>[identifier, bucket].join(":")\<close> writes the window index in decimal, with a minus
  sign when it is negative.
\<close>

definition digit :: "nat \<Rightarrow> char" where
  \<comment> \<open>only applied to \<open>n < 10\<close>\<close>
  "digit n = ''0123456789'' ! n"

function decimal :: "nat \<Rightarrow> string" where
  "decimal n = (if n < 10 then [digit n] else decimal (n div 10) @ [digit (n mod 10)])"
  by pat_completeness auto
termination
  by (relation "measure id") auto

definition number_to_string :: "int \<Rightarrow> string" where
  "number_to_string i = (if i < 0 then CHR ''-'' # decimal (nat (- i)) else decimal (nat i))"

definition windowKey :: "string \<Rightarrow> int \<Rightarrow> string" where
  "windowKey identifier bucket = identifier @ '':'' @ number_to_string bucket"

text \<open>
  \<^verbatim>\<open>fixedWindow(tokens, window)\<close>, with \<open>windowDuration\<close> the milliseconds of \<^verbatim>\<open>window\<close>.
  It is positive wherever a theorem below depends on the window index:
  \<^verbatim>\<open>Math.floor(now / windowDuration)\<close> is then the integer quotient rounded down (for
  instants below \<open>2 ^ 53\<close>, where the double quotient cannot round up to the next
  integer). The early return of the source is the \<open>blocked\<close> branch. The verdict of a
  call that is not rejected at once carries the \<^verbatim>\<open>reset\<close> that \<^verbatim>\<open>isBlocked\<close> returned, and
  \<^verbatim>\<open>resetNew\<close> only goes to \<^verbatim>\<open>blockUntil\<close>.
\<close>

definition fixedWindow :: "int \<Rightarrow> int \<Rightarrow> algorithm" where
  "fixedWindow tokens windowDuration ctx identifier t =
     (let bucket = atEntry t div windowDuration;
          key = windowKey identifier bucket
      in case ctx of
           Some c \<Rightarrow>
             (case isBlocked c identifier (atIsBlocked t) of
                (c1, blocked, reset_at) \<Rightarrow>
                  if blocked then
                    Inr (Some c1, \<lparr>success = False, limit = tokens, remaining = Num 0,
                                   reset = reset_at\<rparr>)
                  else
                    (case incr c1 key (atCleanup t) of
                       (c2, usedTokensAfterUpdate) \<Rightarrow>
                         (case expire c2 key windowDuration (atExpire t) of
                            Inl e \<Rightarrow> Inl e
                          | Inr c3 \<Rightarrow>
                              let ok = usedTokensAfterUpdate \<le> tokens;
                                  resetNew = (bucket + 1) * windowDuration;
                                  c4 = (if \<not> ok then blockUntil c3 identifier resetNew else c3)
                              in Inr (Some c4,
                                      \<lparr>success = ok, limit = tokens,
                                       remaining = Num (max 0 (tokens - usedTokensAfterUpdate)),
                                       reset = reset_at\<rparr>))))
         | None \<Rightarrow>
             Inr (None, \<lparr>success = True, limit = tokens, remaining = Num 0, reset = 0\<rparr>))"

text \<open>
  The remainder \<^verbatim>\<open>%\<close> takes the sign of the dividend; by zero it is \<^verbatim>\<open>NaN\<close>, which is the
  \<open>currentWindow = 0\<close> branch of \<open>weightedPrevious\<close>.
\<close>

definition js_rem :: "int \<Rightarrow> int \<Rightarrow> int" where
  "js_rem a b = sgn a * (\<bar>a\<bar> mod \<bar>b\<bar>)"

text \<open>
  The numbers of the source are IEEE binary64 doubles. The integers of the model (instants
  and counts, below \<open>2 ^ 53\<close>) are doubles exactly; the quotient, the difference and the
  product of lines 181 to 185 are not, and each is the exact result rounded to the nearest
  double, ties to even. \<open>binary64\<close> is that rounding on the rationals: a double is
  \<open>m * 2 ^ e\<close> with \<open>\<bar>m\<bar> < 2 ^ 53\<close> and \<open>e \<ge> - 1074\<close>. Overflow to infinity is not
  modelled: the values rounded here are a quotient below 1 in size, a difference below 2
  and its product with a count.
\<close>

definition pow2 :: "int \<Rightarrow> rat" where
  "pow2 k = (if 0 \<le> k then 2 ^ nat k else 1 / 2 ^ nat (- k))"

text \<open>\<open>ilog2 x\<close> is the integer \<open>k\<close> with \<open>2 ^ k \<le> x < 2 ^ (k + 1)\<close>, for \<open>x > 0\<close>.\<close>

definition ilog2 :: "rat \<Rightarrow> int" where
  "ilog2 x = (if 1 \<le> x then bitlen \<lfloor>x\<rfloor> - 1 else - bitlen (\<lceil>1 / x\<rceil> - 1))"

definition roundHalfEven :: "rat \<Rightarrow> int" where
  "roundHalfEven y =
     (let f = \<lfloor>y\<rfloor>; d = y - of_int f
      in if d < 1 / 2 then f else if 1 / 2 < d then f + 1 else if even f then f else f + 1)"

definition binary64 :: "rat \<Rightarrow> rat" where
  "binary64 x =
     (if x = 0 then 0
      else let e = max (ilog2 \<bar>x\<bar> - 52) (- 1074)
           in of_int (roundHalfEven (x / pow2 e)) * pow2 e)"

text \<open>
  Lines 181 to 185: \<^verbatim>\<open>percentageInCurrent = (now % currentWindow) / currentWindow\<close> and
  \<^verbatim>\<open>Math.floor((1 - percentageInCurrent) * requestsInPreviousWindow)\<close>. The divisor is the
  window index.
\<close>

definition weightedPrevious :: "int \<Rightarrow> int \<Rightarrow> int \<Rightarrow> jsnumber" where
  "weightedPrevious now currentWindow requestsInPreviousWindow =
     (if currentWindow = 0 then NaN
      else
        let percentageInCurrent =
              binary64 (rat_of_int (js_rem now currentWindow) / rat_of_int currentWindow)
        in Num \<lfloor>binary64 (binary64 (1 - percentageInCurrent)
                             * rat_of_int requestsInPreviousWindow)\<rfloor>)"

text \<open>
  \<^verbatim>\<open>slidingWindow(tokens, window)\<close>. The assignment \<^verbatim>\<open>remaining = -1\<close> of line 187 is
  overwritten at line 193 before it is read and is left out. A \<^verbatim>\<open>NaN\<close> weight makes
  \<^verbatim>\<open>remaining\<close> \<^verbatim>\<open>NaN\<close>, \<^verbatim>\<open>remaining >= 0\<close> false and \<^verbatim>\<open>Math.max(0, remaining)\<close> \<^verbatim>\<open>NaN\<close>.
\<close>

definition slidingWindow :: "int \<Rightarrow> int \<Rightarrow> algorithm" where
  "slidingWindow tokens windowSize ctx identifier t =
     (let now = atEntry t;
          currentWindow = now div windowSize;
          currentKey = windowKey identifier currentWindow;
          previousWindow = currentWindow - 1;
          previousKey = windowKey identifier previousWindow
      in case ctx of
           Some c \<Rightarrow>
             (case isBlocked c identifier (atIsBlocked t) of
                (c1, blocked, reset_at) \<Rightarrow>
                  if blocked then
                    Inr (Some c1, \<lparr>success = False, limit = tokens, remaining = Num 0,
                                   reset = reset_at\<rparr>)
                  else
                    let requestsInCurrentWindow =
                          (case get c1 currentKey of None \<Rightarrow> 0 | Some n \<Rightarrow> n);
                        requestsInPreviousWindow =
                          (case get c1 previousKey of None \<Rightarrow> 0 | Some n \<Rightarrow> n);
                        weighted = weightedPrevious now currentWindow requestsInPreviousWindow
                    in case incr c1 currentKey (atCleanup t) of
                         (c2, newValue) \<Rightarrow>
                           (case (if newValue = 1
                                  then expire c2 currentKey (windowSize * 2 + 1000) (atExpire t)
                                  else Inr c2) of
                              Inl e \<Rightarrow> Inl e
                            | Inr c3 \<Rightarrow>
                                let left = (case weighted of
                                              NaN \<Rightarrow> NaN
                                            | Num w \<Rightarrow> Num (tokens - (newValue + w)));
                                    ok = (case left of NaN \<Rightarrow> False | Num r \<Rightarrow> 0 \<le> r);
                                    reset_new = (currentWindow + 1) * windowSize;
                                    c4 = (if \<not> ok then blockUntil c3 identifier reset_new else c3)
                                in Inr (Some c4,
                                        \<lparr>success = ok, limit = tokens,
                                         remaining = (case left of
                                                        NaN \<Rightarrow> NaN
                                                      | Num r \<Rightarrow> Num (max 0 r)),
                                         reset = reset_new\<rparr>)))
         | None \<Rightarrow>
             Inr (None, \<lparr>success = True, limit = tokens, remaining = Num (max 0 0), reset = 0\<rparr>))"

text \<open>
  \<^verbatim>\<open>tokenBucket(refillRate, interval, maxTokens)\<close>: the \<^verbatim>\<open>isBlocked\<close> check runs when there
  is a cache and returns early when it blocks (\<open>rejected\<close>). After it the body is the
  constants \<^verbatim>\<open>remaining = 0\<close> and \<^verbatim>\<open>reset = 0\<close>, so \<^verbatim>\<open>success\<close> is \<^verbatim>\<open>0 >= 0\<close> and
  \<^verbatim>\<open>blockUntil\<close> is never reached.
\<close>

definition tokenBucket :: "int \<Rightarrow> int \<Rightarrow> int \<Rightarrow> algorithm" where
  "tokenBucket refillRate interval maxTokens ctx identifier t =
     (let (ctx1, rejected) =
            (case ctx of
               Some c \<Rightarrow>
                 (case isBlocked c identifier (atIsBlocked t) of
                    (c1, blocked, reset_at) \<Rightarrow>
                      (Some c1,
                       if blocked then
                         Some \<lparr>success = False, limit = maxTokens, remaining = Num 0,
                               reset = reset_at\<rparr>
                       else None))
             | None \<Rightarrow> (None, None))
      in case rejected of
           Some v \<Rightarrow> Inr (ctx1, v)
         | None \<Rightarrow>
             let left = (0::int);
                 reset_new = (0::int);
                 ok = (0 \<le> left);
                 ctx2 = (case ctx1 of
                           Some c1 \<Rightarrow>
                             Some (if \<not> ok then blockUntil c1 identifier reset_new else c1)
                         | None \<Rightarrow> None)
             in Inr (ctx2, \<lparr>success = ok, limit = maxTokens, remaining = Num left,
                            reset = reset_new\<rparr>))"

text \<open>
  \<^verbatim>\<open>cachedFixedWindow(tokens, window)\<close>: \<^verbatim>\<open>hit\<close> is \<^verbatim>\<open>typeof ctx.cache.get(key) === "number"\<close>,
  that is, \<^verbatim>\<open>get\<close> did not return \<^verbatim>\<open>null\<close>.
\<close>

definition cachedFixedWindow :: "int \<Rightarrow> int \<Rightarrow> algorithm" where
  "cachedFixedWindow tokens windowDuration ctx identifier t =
     (case ctx of
        None \<Rightarrow> Inl (Error ''This algorithm requires a cache'')
      | Some c \<Rightarrow>
          let bucket = atEntry t div windowDuration;
              key = windowKey identifier bucket;
              reset_at = (bucket + 1) * windowDuration;
              hit = (get c key \<noteq> None)
          in if hit then
               (case incr c key (atCleanup t) of
                  (c1, cachedTokensAfterUpdate) \<Rightarrow>
                    Inr (Some c1,
                         \<lparr>success = cachedTokensAfterUpdate < tokens, limit = tokens,
                          remaining = Num (tokens - cachedTokensAfterUpdate),
                          reset = reset_at\<rparr>))
             else
               let usedTokensAfterUpdate = (0::int);
                   c1 = set_c c key usedTokensAfterUpdate;
                   left = tokens - usedTokensAfterUpdate
               in Inr (Some c1,
                       \<lparr>success = (0 \<le> left), limit = tokens, remaining = Num left,
                        reset = reset_at\<rparr>))"

section \<open>Calls in sequence\<close>

text \<open>
  \<open>calls alg ctx identifier ts\<close> is one caller awaiting \<open>alg\<close> once for each element of
  \<open>ts\<close>, on the same cache: it returns the context after the last call and the verdicts
  in order, and stops at the first error.
\<close>

fun calls :: "algorithm \<Rightarrow> ctx \<Rightarrow> string \<Rightarrow> readings list \<Rightarrow> error + ctx \<times> verdict list" where
  "calls alg ctx identifier [] = Inr (ctx, [])"
| "calls alg ctx identifier (t # ts) =
     (case alg ctx identifier t of
        Inl e \<Rightarrow> Inl e
      | Inr (ctx1, v) \<Rightarrow>
          (case calls alg ctx1 identifier ts of
             Inl e \<Rightarrow> Inl e
           | Inr (ctx2, vs) \<Rightarrow> Inr (ctx2, v # vs)))"

text \<open>A call is inside window \<open>b\<close> when each of its clock readings is.\<close>

definition inWindow :: "int \<Rightarrow> int \<Rightarrow> readings \<Rightarrow> bool" where
  "inWindow windowDuration b t \<longleftrightarrow>
     atEntry t div windowDuration = b \<and> atIsBlocked t div windowDuration = b \<and>
     atCleanup t div windowDuration = b \<and> atExpire t div windowDuration = b"

text \<open>What a caller observes of a result: the verdict, and an entry of the cache.\<close>

definition answer :: "error + ctx \<times> 'a \<Rightarrow> error + 'a" where
  "answer r = (case r of Inl e \<Rightarrow> Inl e | Inr (_, v) \<Rightarrow> Inr v)"

definition entryAfter :: "error + ctx \<times> 'a \<Rightarrow> string \<Rightarrow> entry option" where
  "entryAfter r key = (case r of Inr (Some c, _) \<Rightarrow> c key | _ \<Rightarrow> None)"

section \<open>The sliding-window weight as the specification words it\<close>

text \<open>
  This definition follows the words of the specification, not the source: the weight of
  the previous window is \<^verbatim>\<open>floor((1 - elapsedFraction) * requestsInPrevious)\<close> with
  \<^verbatim>\<open>elapsedFraction = (now mod windowMs) / windowMs\<close>. It is compared with
  \<open>weightedPrevious\<close>, which is the source.
\<close>

definition weightedPrevious_spec :: "int \<Rightarrow> int \<Rightarrow> int \<Rightarrow> int" where
  "weightedPrevious_spec now windowMs requestsInPrevious =
     \<lfloor>(1 - real_of_int (now mod windowMs) / real_of_int windowMs)
        * real_of_int requestsInPrevious\<rfloor>"

section \<open>Properties of the cache\<close>

lemma get_absent_iff: "get c key = None \<longleftrightarrow> (c key = None \<or> (\<exists>e. c key = Some e \<and> val e = 0))"
  by (auto simp: get_def split: option.splits)

text \<open>
  C10: for every key whose entry holds the value 0, whatever its \<^verbatim>\<open>expireAt\<close>, \<^verbatim>\<open>get\<close>
  returns absent; \<^verbatim>\<open>get\<close> never returns 0.
\<close>

theorem get_never_zero:
  "(c key = Some e \<and> val e = 0 \<longrightarrow> get c key = None) \<and> get c' key' \<noteq> Some 0"
  by (auto simp: get_def split: option.splits)

theorem get_never_zero_witness:
  "[''k'' \<mapsto> \<lparr>val = 0, expireAt = Some 5\<rparr>] ''k'' = Some \<lparr>val = 0, expireAt = Some 5\<rparr>
   \<and> val \<lparr>val = 0, expireAt = Some 5\<rparr> = 0
   \<and> get [''k'' \<mapsto> \<lparr>val = 0, expireAt = Some 5\<rparr>] ''k'' = None"
  using get_never_zero [of "[''k'' \<mapsto> \<lparr>val = 0, expireAt = Some 5\<rparr>]" "''k''"
      "\<lparr>val = 0, expireAt = Some 5\<rparr>"]
  by simp

section \<open>Fixed window: counting inside one window\<close>

lemma windowKey_neq [simp]: "windowKey identifier b \<noteq> identifier" "identifier \<noteq> windowKey identifier b"
  by (simp_all add: windowKey_def)

lemma div_window:
  fixes W :: int
  assumes "0 < W" "t div W = b"
  shows "b * W \<le> t" "t < (b + 1) * W"
proof -
  have eq: "t = b * W + t mod W"
    using assms(2) by (metis div_mult_mod_eq)
  have lo: "0 \<le> t mod W" and hi: "t mod W < W"
    using assms(1) by simp_all
  show "b * W \<le> t" using eq lo by linarith
  show "t < (b + 1) * W" using eq hi by (simp add: algebra_simps)
qed

lemma fixedWindow_blocked:
  assumes "c identifier = Some e" "atIsBlocked t \<le> val e"
  shows "fixedWindow N W (Some c) identifier t =
           Inr (Some c, \<lparr>success = False, limit = N, remaining = Num 0, reset = val e\<rparr>)"
  using assms by (simp add: fixedWindow_def isBlocked_def)

lemma fixedWindow_first:
  assumes "c identifier = None" "atEntry t div W = b" "c (windowKey identifier b) = None"
  shows "\<exists>c1. fixedWindow N W (Some c) identifier t =
           Inr (Some c1, \<lparr>success = (0 + 1 \<le> N), limit = N,
                          remaining = Num (max 0 (N - (0 + 1))), reset = 0\<rparr>)
         \<and> c1 (windowKey identifier b) = Some \<lparr>val = 0 + 1, expireAt = Some (atExpire t + W)\<rparr>
         \<and> c1 identifier = (if 0 + 1 \<le> N then None
                             else Some \<lparr>val = (b + 1) * W, expireAt = None\<rparr>)"
  using assms
  by (simp add: fixedWindow_def isBlocked_def incr_def cleanup_def set_c_def expire_def
      blockUntil_def Let_def)

lemma fixedWindow_next:
  assumes "c identifier = None" "atEntry t div W = b"
    "c (windowKey identifier b) = Some \<lparr>val = j, expireAt = Some x\<rparr>"
    "atCleanup t < x"
  shows "\<exists>c1. fixedWindow N W (Some c) identifier t =
           Inr (Some c1, \<lparr>success = (j + 1 \<le> N), limit = N,
                          remaining = Num (max 0 (N - (j + 1))), reset = 0\<rparr>)
         \<and> c1 (windowKey identifier b) = Some \<lparr>val = j + 1, expireAt = Some (atExpire t + W)\<rparr>
         \<and> c1 identifier = (if j + 1 \<le> N then None
                             else Some \<lparr>val = (b + 1) * W, expireAt = None\<rparr>)"
  using assms
  by (simp add: fixedWindow_def isBlocked_def incr_def cleanup_def set_c_def expire_def
      blockUntil_def Let_def)

lemma calls_fixedWindow_blocked:
  assumes "c identifier = Some e" "val e = R" "list_all (\<lambda>t. atIsBlocked t \<le> R) ts"
  shows "calls (fixedWindow N W) (Some c) identifier ts =
           Inr (Some c, replicate (length ts)
                  \<lparr>success = False, limit = N, remaining = Num 0, reset = R\<rparr>)"
  using assms by (induction ts) (auto simp: fixedWindow_blocked)

lemma calls_fixedWindow_counting:
  assumes W: "0 < W" and inw: "list_all (inWindow W b) ts"
    and idn: "c identifier = None"
    and key: "(j = 0 \<and> c (windowKey identifier b) = None) \<or>
              (\<exists>x. c (windowKey identifier b) = Some \<lparr>val = j, expireAt = Some x\<rparr> \<and> (b + 1) * W \<le> x)"
    and jN: "j \<le> N"
  shows "\<exists>c'. calls (fixedWindow N W) (Some c) identifier ts =
           Inr (Some c',
                map (\<lambda>i. \<lparr>success = j + int i < N, limit = N,
                           remaining = Num (max 0 (N - (j + int i) - 1)),
                           reset = (if j + int i \<le> N then 0 else (b + 1) * W)\<rparr>)
                    [0..<length ts])
         \<and> (N < j + int (length ts) \<longrightarrow>
              c' identifier = Some \<lparr>val = (b + 1) * W, expireAt = None\<rparr>)"
  using inw idn key jN
proof (induction ts arbitrary: c j)
  case Nil
  then show ?case by simp
next
  case (Cons t ts)
  let ?k = "windowKey identifier b"
  let ?f = "\<lambda>j i. \<lparr>success = j + int i < N, limit = N,
                     remaining = Num (max 0 (N - (j + int i) - 1)),
                     reset = (if j + int i \<le> N then 0 else (b + 1) * W)\<rparr>"
  from Cons.prems(1) have t: "inWindow W b t" and ts: "list_all (inWindow W b) ts"
    by simp_all
  from t have b: "atEntry t div W = b" and "atCleanup t div W = b" and "atExpire t div W = b"
    by (simp_all add: inWindow_def)
  then have cl: "atCleanup t < (b + 1) * W" and ex: "b * W \<le> atExpire t"
    using div_window [OF W] by blast+
  have "\<exists>c1. fixedWindow N W (Some c) identifier t =
           Inr (Some c1, \<lparr>success = (j + 1 \<le> N), limit = N,
                          remaining = Num (max 0 (N - (j + 1))), reset = 0\<rparr>)
         \<and> c1 ?k = Some \<lparr>val = j + 1, expireAt = Some (atExpire t + W)\<rparr>
         \<and> c1 identifier = (if j + 1 \<le> N then None
                             else Some \<lparr>val = (b + 1) * W, expireAt = None\<rparr>)"
    using Cons.prems(3)
  proof
    assume "j = 0 \<and> c ?k = None"
    then have "j = 0" "c ?k = None" by simp_all
    show ?thesis
      unfolding \<open>j = 0\<close> by (rule fixedWindow_first [OF Cons.prems(2) b \<open>c ?k = None\<close>])
  next
    assume "\<exists>x. c ?k = Some \<lparr>val = j, expireAt = Some x\<rparr> \<and> (b + 1) * W \<le> x"
    then obtain x where "c ?k = Some \<lparr>val = j, expireAt = Some x\<rparr>" "(b + 1) * W \<le> x"
      by blast
    then have "atCleanup t < x" using cl by simp
    show ?thesis
      by (rule fixedWindow_next [OF Cons.prems(2) b \<open>c ?k = Some \<lparr>val = j, expireAt = Some x\<rparr>\<close>
            \<open>atCleanup t < x\<close>])
  qed
  then obtain c1 where
    step: "fixedWindow N W (Some c) identifier t =
             Inr (Some c1, \<lparr>success = (j + 1 \<le> N), limit = N,
                            remaining = Num (max 0 (N - (j + 1))), reset = 0\<rparr>)"
    and k1: "c1 ?k = Some \<lparr>val = j + 1, expireAt = Some (atExpire t + W)\<rparr>"
    and i1: "c1 identifier = (if j + 1 \<le> N then None
                              else Some \<lparr>val = (b + 1) * W, expireAt = None\<rparr>)"
    by blast
  have hd: "\<lparr>success = (j + 1 \<le> N), limit = N, remaining = Num (max 0 (N - (j + 1))),
             reset = 0\<rparr> = ?f j 0"
  proof -
    have "(j + 1 \<le> N) = (j < N)" "N - (j + 1) = N - j - 1" by auto
    then show ?thesis using Cons.prems(4) by simp
  qed
  have shift: "map (?f j) [0..<length (t # ts)] = ?f j 0 # map (?f (j + 1)) [0..<length ts]"
    by (simp add: map_upt_Suc add.commute add.left_commute del: upt_Suc)
  show ?case
  proof (cases "j + 1 \<le> N")
    case True
    have "(b + 1) * W \<le> atExpire t + W"
      using ex by (simp add: algebra_simps)
    then have key1: "(j + 1 = 0 \<and> c1 ?k = None) \<or>
        (\<exists>x. c1 ?k = Some \<lparr>val = j + 1, expireAt = Some x\<rparr> \<and> (b + 1) * W \<le> x)"
      using k1 by blast
    have i1n: "c1 identifier = None" using i1 True by simp
    from Cons.IH [OF ts i1n key1 True]
    obtain c' where
      rest: "calls (fixedWindow N W) (Some c1) identifier ts =
               Inr (Some c', map (?f (j + 1)) [0..<length ts])"
      and blk: "N < j + 1 + int (length ts) \<longrightarrow>
                 c' identifier = Some \<lparr>val = (b + 1) * W, expireAt = None\<rparr>"
      by auto
    have "calls (fixedWindow N W) (Some c) identifier (t # ts) =
            Inr (Some c', map (?f j) [0..<length (t # ts)])"
      using step rest hd unfolding shift by simp
    moreover have "N < j + int (length (t # ts)) \<longrightarrow>
        c' identifier = Some \<lparr>val = (b + 1) * W, expireAt = None\<rparr>"
      using blk by (simp add: algebra_simps)
    ultimately show ?thesis by blast
  next
    case False
    with Cons.prems(4) have jN: "j = N" by simp
    from i1 False have i1': "c1 identifier = Some \<lparr>val = (b + 1) * W, expireAt = None\<rparr>"
      by simp
    have "atIsBlocked t \<le> (b + 1) * W" if "inWindow W b t" for t
      using that div_window(2) [OF W, of "atIsBlocked t" b] by (simp add: inWindow_def)
    then have late: "list_all (\<lambda>t. atIsBlocked t \<le> (b + 1) * W) ts"
      using ts by (simp add: list_all_iff)
    have rest: "calls (fixedWindow N W) (Some c1) identifier ts =
        Inr (Some c1, replicate (length ts)
               \<lparr>success = False, limit = N, remaining = Num 0, reset = (b + 1) * W\<rparr>)"
      by (rule calls_fixedWindow_blocked [where e = "\<lparr>val = (b + 1) * W, expireAt = None\<rparr>"])
        (simp_all add: i1' late)
    have "map (?f (j + 1)) [0..<length ts] =
        replicate (length ts) \<lparr>success = False, limit = N, remaining = Num 0, reset = (b + 1) * W\<rparr>"
      using jN by (simp add: map_replicate_const)
    then have "calls (fixedWindow N W) (Some c) identifier (t # ts) =
            Inr (Some c1, map (?f j) [0..<length (t # ts)])"
      using step rest hd unfolding shift by simp
    then show ?thesis using i1' by blast
  qed
qed

text \<open>
  C1: fixed window with limit \<open>N\<close> and window \<open>W\<close>, on a cache that holds neither the
  identifier nor the key of window \<open>b\<close> (the empty cache is one). Whatever the spacing of
  the calls, as long as every clock reading is inside window \<open>b\<close>: call \<open>i + 1\<close> succeeds
  exactly when \<open>i < N\<close>, so the first \<open>N\<close> calls succeed and every later one fails; the
  remaining count of call \<open>i + 1\<close> is \<open>max 0 (N - i - 1)\<close>, that is \<open>N - 1\<close> down to 0 and
  then 0; and once more than \<open>N\<close> calls were made the identifier has a block record
  whose instant is the start of the next window, \<open>(b + 1) * W\<close>. The witness is the
  scenario with limit 10 and a window of 10000 ms.
\<close>

theorem fixedWindow_window_isolation:
  assumes "0 < W" "0 \<le> N" "c identifier = None" "c (windowKey identifier b) = None"
    "list_all (inWindow W b) ts"
  shows "\<exists>c' vs. calls (fixedWindow N W) (Some c) identifier ts = Inr (Some c', vs)
         \<and> map success vs = map (\<lambda>i. int i < N) [0..<length ts]
         \<and> map remaining vs = map (\<lambda>i. Num (max 0 (N - int i - 1))) [0..<length ts]
         \<and> (N < int (length ts) \<longrightarrow>
              c' identifier = Some \<lparr>val = (b + 1) * W, expireAt = None\<rparr>)"
proof -
  have "(0 = (0::int) \<and> c (windowKey identifier b) = None) \<or>
        (\<exists>x. c (windowKey identifier b) = Some \<lparr>val = 0, expireAt = Some x\<rparr> \<and> (b + 1) * W \<le> x)"
    using assms(4) by simp
  from calls_fixedWindow_counting [OF assms(1) assms(5) assms(3) this assms(2)]
  obtain c' where
    run: "calls (fixedWindow N W) (Some c) identifier ts =
            Inr (Some c',
                 map (\<lambda>i. \<lparr>success = 0 + int i < N, limit = N,
                            remaining = Num (max 0 (N - (0 + int i) - 1)),
                            reset = (if 0 + int i \<le> N then 0 else (b + 1) * W)\<rparr>)
                     [0..<length ts])"
    and blk: "N < 0 + int (length ts) \<longrightarrow>
               c' identifier = Some \<lparr>val = (b + 1) * W, expireAt = None\<rparr>"
    by blast
  show ?thesis
    using run blk by (simp add: comp_def)
qed

theorem fixedWindow_window_isolation_witness:
  "\<exists>c' vs. calls (fixedWindow 10 10000) (Some Map.empty) ''X''
       [allAt 20000, allAt 20001, allAt 20002, allAt 21000, allAt 22000, allAt 25000,
        \<lparr>atEntry = 25000, atIsBlocked = 25000, atCleanup = 25001, atExpire = 25002\<rparr>,
        allAt 29000, allAt 29997, allAt 29998, allAt 29999, allAt 29999] = Inr (Some c', vs)
     \<and> map success vs = [True, True, True, True, True, True, True, True, True, True, False, False]
     \<and> map remaining vs = [Num 9, Num 8, Num 7, Num 6, Num 5, Num 4, Num 3, Num 2, Num 1, Num 0,
                            Num 0, Num 0]
     \<and> c' ''X'' = Some \<lparr>val = 30000, expireAt = None\<rparr>"
  using fixedWindow_window_isolation [of 10000 10 Map.empty "''X''" 2
      "[allAt 20000, allAt 20001, allAt 20002, allAt 21000, allAt 22000, allAt 25000,
        \<lparr>atEntry = 25000, atIsBlocked = 25000, atCleanup = 25001, atExpire = 25002\<rparr>,
        allAt 29000, allAt 29997, allAt 29998, allAt 29999, allAt 29999]"]
  by (simp add: inWindow_def allAt_def upt_rec)

section \<open>The block index: once blocked, blocked until the reset instant\<close>

lemma isBlocked_blocked:
  assumes "isBlocked c identifier now = (c', True, R)"
  shows "c' = c" "\<exists>e. c identifier = Some e \<and> val e = R"
  using assms by (auto simp: isBlocked_def split: option.splits if_splits)

lemma slidingWindow_blocked:
  assumes "c identifier = Some e" "atIsBlocked t \<le> val e"
  shows "slidingWindow N W (Some c) identifier t =
           Inr (Some c, \<lparr>success = False, limit = N, remaining = Num 0, reset = val e\<rparr>)"
  using assms by (simp add: slidingWindow_def isBlocked_def)

lemma tokenBucket_blocked:
  assumes "c identifier = Some e" "atIsBlocked t \<le> val e"
  shows "tokenBucket r i m (Some c) identifier t =
           Inr (Some c, \<lparr>success = False, limit = m, remaining = Num 0, reset = val e\<rparr>)"
  using assms by (simp add: tokenBucket_def isBlocked_def)

lemma calls_blocked:
  assumes "\<And>t. atIsBlocked t \<le> R \<Longrightarrow> alg (Some c) identifier t = Inr (Some c, v)"
    "list_all (\<lambda>t. atIsBlocked t \<le> R) ts"
  shows "calls alg (Some c) identifier ts = Inr (Some c, replicate (length ts) v)"
  using assms(2) by (induction ts) (simp_all add: assms(1))

text \<open>
  C2: once \<^verbatim>\<open>isBlocked(identifier)\<close> has returned \<^verbatim>\<open>blocked = true\<close> with reset instant
  \<open>R\<close>, it has left the cache as it was, and every later \<^verbatim>\<open>isBlocked(identifier)\<close> at an
  instant before \<open>R\<close> returns \<^verbatim>\<open>blocked = true\<close> with the same \<open>R\<close> and again leaves the
  cache as it was. Every call of the fixed window, the sliding window and the token bucket
  for that identifier whose \<^verbatim>\<open>isBlocked\<close> clock reading is before \<open>R\<close>, however many of
  them in a row, returns \<^verbatim>\<open>success = false\<close>, \<^verbatim>\<open>remaining = 0\<close> and \<^verbatim>\<open>reset = R\<close>, and the
  cache after the calls is the cache before them: no counter key is incremented. (These
  are the three algorithms with an \<^verbatim>\<open>isBlocked\<close> check; \<^verbatim>\<open>cachedFixedWindow\<close> has none.)
\<close>

theorem blocked_stays_blocked:
  assumes "isBlocked c identifier now = (c', True, R)"
    and "now' < R"
    and "list_all (\<lambda>t. atIsBlocked t < R) ts"
  shows "c' = c
    \<and> isBlocked c' identifier now' = (c', True, R)
    \<and> calls (fixedWindow tokens W) (Some c') identifier ts =
          Inr (Some c', replicate (length ts)
                 \<lparr>success = False, limit = tokens, remaining = Num 0, reset = R\<rparr>)
    \<and> calls (slidingWindow tokens W) (Some c') identifier ts =
          Inr (Some c', replicate (length ts)
                 \<lparr>success = False, limit = tokens, remaining = Num 0, reset = R\<rparr>)
    \<and> calls (tokenBucket refillRate interval maxTokens) (Some c') identifier ts =
          Inr (Some c', replicate (length ts)
                 \<lparr>success = False, limit = maxTokens, remaining = Num 0, reset = R\<rparr>)"
proof -
  from isBlocked_blocked [OF assms(1)] obtain e where
    c: "c' = c" and e: "c identifier = Some e" and R: "val e = R"
    by blast
  have ts: "list_all (\<lambda>t. atIsBlocked t \<le> R) ts"
    using assms(3) by (simp add: list_all_iff less_imp_le)
  have again: "isBlocked c identifier now' = (c, True, R)"
    using e R assms(2) by (simp add: isBlocked_def)
  have fixed: "calls (fixedWindow tokens W) (Some c) identifier ts =
           Inr (Some c, replicate (length ts)
                  \<lparr>success = False, limit = tokens, remaining = Num 0, reset = R\<rparr>)"
    by (rule calls_blocked [OF _ ts]) (use e R in \<open>simp add: fixedWindow_blocked\<close>)
  have sliding: "calls (slidingWindow tokens W) (Some c) identifier ts =
           Inr (Some c, replicate (length ts)
                  \<lparr>success = False, limit = tokens, remaining = Num 0, reset = R\<rparr>)"
    by (rule calls_blocked [OF _ ts]) (use e R in \<open>simp add: slidingWindow_blocked\<close>)
  have bucket: "calls (tokenBucket refillRate interval maxTokens) (Some c) identifier ts =
           Inr (Some c, replicate (length ts)
                  \<lparr>success = False, limit = maxTokens, remaining = Num 0, reset = R\<rparr>)"
    by (rule calls_blocked [OF _ ts]) (use e R in \<open>simp add: tokenBucket_blocked\<close>)
  show ?thesis
    unfolding c using again fixed sliding bucket by simp
qed

theorem blocked_stays_blocked_witness:
  "isBlocked [''X'' \<mapsto> \<lparr>val = 30000, expireAt = None\<rparr>] ''X'' 25000 =
     ([''X'' \<mapsto> \<lparr>val = 30000, expireAt = None\<rparr>], True, 30000)
   \<and> isBlocked [''X'' \<mapsto> \<lparr>val = 30000, expireAt = None\<rparr>] ''X'' 29999 =
     ([''X'' \<mapsto> \<lparr>val = 30000, expireAt = None\<rparr>], True, 30000)
   \<and> calls (fixedWindow 10 10000) (Some [''X'' \<mapsto> \<lparr>val = 30000, expireAt = None\<rparr>]) ''X''
        [allAt 25001, allAt 29999] =
      Inr (Some [''X'' \<mapsto> \<lparr>val = 30000, expireAt = None\<rparr>],
           [\<lparr>success = False, limit = 10, remaining = Num 0, reset = 30000\<rparr>,
            \<lparr>success = False, limit = 10, remaining = Num 0, reset = 30000\<rparr>])
   \<and> calls (slidingWindow 10 10000) (Some [''X'' \<mapsto> \<lparr>val = 30000, expireAt = None\<rparr>]) ''X''
        [allAt 25001, allAt 29999] =
      Inr (Some [''X'' \<mapsto> \<lparr>val = 30000, expireAt = None\<rparr>],
           [\<lparr>success = False, limit = 10, remaining = Num 0, reset = 30000\<rparr>,
            \<lparr>success = False, limit = 10, remaining = Num 0, reset = 30000\<rparr>])
   \<and> calls (tokenBucket 5 10000 10) (Some [''X'' \<mapsto> \<lparr>val = 30000, expireAt = None\<rparr>]) ''X''
        [allAt 25001, allAt 29999] =
      Inr (Some [''X'' \<mapsto> \<lparr>val = 30000, expireAt = None\<rparr>],
           [\<lparr>success = False, limit = 10, remaining = Num 0, reset = 30000\<rparr>,
            \<lparr>success = False, limit = 10, remaining = Num 0, reset = 30000\<rparr>])"
proof -
  have blocked: "isBlocked [''X'' \<mapsto> \<lparr>val = 30000, expireAt = None\<rparr>] ''X'' 25000 =
      ([''X'' \<mapsto> \<lparr>val = 30000, expireAt = None\<rparr>], True, 30000)"
    by (simp add: isBlocked_def)
  have before: "(29999::int) < 30000"
    by simp
  have times: "list_all (\<lambda>t. atIsBlocked t < 30000) [allAt 25001, allAt 29999]"
    by (simp add: allAt_def)
  show ?thesis
    using blocked blocked_stays_blocked [OF blocked before times, where tokens = 10 and W = 10000
        and refillRate = 5 and interval = 10000 and maxTokens = 10]
    by (simp add: numeral_2_eq_2)
qed

section \<open>Misuse: what raises and what does not\<close>


text \<open>
  Inside \<^verbatim>\<open>fixedWindow\<close> the call of \<^verbatim>\<open>expire\<close> always follows \<^verbatim>\<open>incr\<close> on the same key, so
  \<^verbatim>\<open>fixedWindow\<close> never raises.
\<close>

lemma fixedWindow_never_raises:
  "fixedWindow tokens W ctx identifier t \<noteq> Inl e"
  by (auto simp: fixedWindow_def isBlocked_def incr_def set_c_def expire_def Let_def
      split: option.splits)




section \<open>Expiry: \<^verbatim>\<open>get\<close> and the sweep of \<^verbatim>\<open>incr\<close>\<close>

text \<open>
  The sweep that \<^verbatim>\<open>incr\<close> runs first removes an entry whose \<^verbatim>\<open>expireAt\<close> (not 0) is not
  after the instant of the sweep: after \<^verbatim>\<open>incr\<close> of another key the entry is gone and
  \<^verbatim>\<open>get\<close> of it is absent, and \<^verbatim>\<open>incr\<close> of the key itself counts from 0 again.
\<close>

lemma incr_sweeps_expired:
  assumes "c key = Some e" and "expireAt e = Some x" and "x \<noteq> 0" and "x \<le> later"
  shows "key' \<noteq> key \<Longrightarrow> fst (incr c key' later) key = None"
    and "key' \<noteq> key \<Longrightarrow> get (fst (incr c key' later)) key = None"
    and "snd (incr c key later) = 1"
  using assms by (simp_all add: incr_def cleanup_def set_c_def get_def Let_def)

text \<open>
  C3 says that \<^verbatim>\<open>get(key)\<close> returns absent once the key's \<^verbatim>\<open>expireAt\<close> has passed and
  deletes the entry, so that a key given \<^verbatim>\<open>expire(key, 100)\<close> is absent from \<^verbatim>\<open>get(key)\<close> at
  \<open>now + 101\<close>. A key is created by \<^verbatim>\<open>incr\<close> at instant 0 and given \<^verbatim>\<open>expire(key, 100)\<close> at
  instant 0: its entry is value 1 with \<^verbatim>\<open>expireAt = 100\<close>. \<^verbatim>\<open>get\<close> reads no clock and
  writes nothing, so at instant 101, as at any other, it returns 1 for this cache, where
  C3 gives absent, and the entry stays in the cache.
\<close>

theorem get_returns_expired_entry:
  "expire (fst (incr Map.empty ''k'' 0)) ''k'' 100 0 =
     Inr [''k'' \<mapsto> \<lparr>val = 1, expireAt = Some 100\<rparr>]
   \<and> get [''k'' \<mapsto> \<lparr>val = 1, expireAt = Some 100\<rparr>] ''k'' = Some 1"
  by (simp add: incr_def cleanup_def set_c_def expire_def get_def)

section \<open>Fixed window: the verdict of an admitted call\<close>

lemma number_to_string_digits:
  "number_to_string 0 = ''0''" "number_to_string 1 = ''1''" "number_to_string 2 = ''2''"
  by (simp_all add: number_to_string_def decimal.simps digit_def)

lemma windowKey_X: "windowKey ''X'' 1 = ''X:1''" "windowKey ''X'' 2 = ''X:2''"
  by (simp_all add: windowKey_def number_to_string_digits)

text \<open>
  When \<^verbatim>\<open>isBlocked\<close> does not block and \<^verbatim>\<open>incr\<close> returns \<open>count\<close>, the verdict has
  \<^verbatim>\<open>success = (count <= tokens)\<close> and \<^verbatim>\<open>remaining = max(0, tokens - count)\<close>, and its
  \<^verbatim>\<open>reset\<close> is 0: the \<^verbatim>\<open>reset\<close> that \<^verbatim>\<open>isBlocked\<close> returned.
\<close>

lemma fixedWindow_admitted:
  assumes "isBlocked c identifier (atIsBlocked t) = (c1, False, r)"
    and "incr c1 (windowKey identifier (atEntry t div W)) (atCleanup t) = (c2, count)"
  shows "answer (fixedWindow tokens W (Some c) identifier t) =
           Inr \<lparr>success = (count \<le> tokens), limit = tokens,
                remaining = Num (max 0 (tokens - count)), reset = 0\<rparr>"
  using assms
  by (auto simp: fixedWindow_def answer_def isBlocked_def incr_def set_c_def expire_def Let_def
      split: option.splits if_splits)

text \<open>
  C4 says that the verdict of a call that is not rejected at once has
  \<^verbatim>\<open>reset = (bucket + 1) * windowMs\<close>. With limit 10 and a window of 10000 ms, the first
  call for \<^verbatim>\<open>X\<close> at instant 25000 on an empty cache is in bucket 2: it is admitted with
  \<^verbatim>\<open>remaining = 9\<close>, and its verdict has \<^verbatim>\<open>reset = 0\<close>, where C4 gives 30000.
\<close>

theorem fixedWindow_verdict_reset:
  "answer (fixedWindow 10 10000 (Some Map.empty) ''X'' (allAt 25000)) =
     Inr \<lparr>success = True, limit = 10, remaining = Num 9, reset = 0\<rparr>
   \<and> (25000 div 10000 + 1) * 10000 = (30000::int)"
  by (simp add: fixedWindow_def answer_def isBlocked_def incr_def cleanup_def set_c_def
      expire_def allAt_def Let_def)

text \<open>
  C9 says that \<^verbatim>\<open>expire(key, windowMs)\<close> is applied only when \<^verbatim>\<open>incr\<close> returns 1 and that
  later calls in the window leave \<^verbatim>\<open>expireAt\<close> as it is. With limit 10 and a window of
  10000 ms, after the first call for \<^verbatim>\<open>X\<close> at instant 20000 the key of bucket 2 has
  \<^verbatim>\<open>expireAt = 30000\<close>; after a second call at instant 25000, for which \<^verbatim>\<open>incr\<close> returns 2,
  it has \<^verbatim>\<open>expireAt = 35000\<close>.
\<close>

theorem fixedWindow_expire_every_call:
  "entryAfter (calls (fixedWindow 10 10000) (Some Map.empty) ''X'' [allAt 20000])
     (windowKey ''X'' 2) = Some \<lparr>val = 1, expireAt = Some 30000\<rparr>
   \<and> entryAfter (calls (fixedWindow 10 10000) (Some Map.empty) ''X'' [allAt 20000, allAt 25000])
     (windowKey ''X'' 2) = Some \<lparr>val = 2, expireAt = Some 35000\<rparr>"
  by (simp add: entryAfter_def fixedWindow_def isBlocked_def incr_def cleanup_def set_c_def
      expire_def allAt_def Let_def windowKey_X)

section \<open>Sliding window: the weight of the previous window\<close>

text \<open>
  \<open>ilog2\<close> brackets its argument between two powers of 2, and \<open>roundHalfEven\<close> is within
  one half of its argument: \<open>binary64 x\<close> is a multiple of \<open>2 ^ e\<close> within half of \<open>2 ^ e\<close>
  of \<open>x\<close>, for the exponent \<open>e\<close> that leaves 53 bits.
\<close>

lemma pow2_add1: "pow2 (k + 1) = 2 * pow2 k"
proof (cases "0 \<le> k")
  case True
  then show ?thesis by (simp add: pow2_def nat_add_distrib)
next
  case False
  then have "nat (- k) = Suc (nat (- (k + 1)))" by simp
  then show ?thesis using False by (simp add: pow2_def)
qed

lemma pow2_neg: "pow2 (- k) = 1 / pow2 k"
  by (cases k "0::int" rule: linorder_cases) (simp_all add: pow2_def)

lemma pow2_pos: "0 < pow2 k"
  by (simp add: pow2_def)

lemma ilog2_bounds:
  assumes "0 < x"
  shows "pow2 (ilog2 x) \<le> x \<and> x < pow2 (ilog2 x + 1)"
proof (cases "1 \<le> x")
  case True
  let ?n = "\<lfloor>x\<rfloor>"
  have n: "0 < ?n" using True by simp
  then have b1: "1 \<le> bitlen ?n" by (simp add: bitlen_alt_def)
  from bitlen_bounds [OF n]
  have lo: "2 ^ nat (bitlen ?n - 1) \<le> ?n" and hi: "?n < 2 ^ nat (bitlen ?n)" by simp_all
  have "rat_of_int (2 ^ nat (bitlen ?n - 1)) \<le> rat_of_int ?n" using lo by (simp only: of_int_le_iff)
  also have "\<dots> \<le> x" by simp
  finally have A: "pow2 (bitlen ?n - 1) \<le> x" using b1 by (simp add: pow2_def)
  have "?n + 1 \<le> 2 ^ nat (bitlen ?n)" using hi by simp
  then have "rat_of_int (?n + 1) \<le> rat_of_int (2 ^ nat (bitlen ?n))" by (simp only: of_int_le_iff)
  moreover have "x < rat_of_int (?n + 1)" by linarith
  ultimately have "x < rat_of_int (2 ^ nat (bitlen ?n))" by linarith
  then have B: "x < pow2 (bitlen ?n - 1 + 1)" using b1 by (simp add: pow2_def)
  show ?thesis using True A B by (simp add: ilog2_def)
next
  case False
  let ?y = "1 / x"
  let ?m = "\<lceil>?y\<rceil> - 1"
  have y: "1 < ?y" using False assms by simp
  then have m: "0 < ?m" by linarith
  let ?k = "bitlen ?m"
  from bitlen_bounds [OF m]
  have lo: "2 ^ nat (?k - 1) \<le> ?m" and hi: "?m < 2 ^ nat ?k" by simp_all
  have k1: "1 \<le> ?k" using m by (simp add: bitlen_alt_def)
  have my: "rat_of_int ?m < ?y" "?y \<le> rat_of_int (?m + 1)" by linarith+
  have "rat_of_int (2 ^ nat (?k - 1)) \<le> rat_of_int ?m" using lo by (simp only: of_int_le_iff)
  then have "rat_of_int (2 ^ nat (?k - 1)) < ?y" using my(1) by (rule le_less_trans)
  then have ylo: "pow2 (?k - 1) < ?y" using k1 by (simp add: pow2_def)
  have "?m + 1 \<le> 2 ^ nat ?k" using hi by simp
  then have "rat_of_int (?m + 1) \<le> rat_of_int (2 ^ nat ?k)" by (simp only: of_int_le_iff)
  with my(2) have "?y \<le> rat_of_int (2 ^ nat ?k)" by (rule order_trans)
  then have yhi: "?y \<le> pow2 ?k" using k1 by (simp add: pow2_def)
  have P: "0 < pow2 ?k" "0 < pow2 (?k - 1)" by (rule pow2_pos)+
  have A: "pow2 (- ?k) \<le> x"
    unfolding pow2_neg using yhi assms P(1) by (simp add: field_simps)
  have "- ?k + 1 = - (?k - 1)" by simp
  then have eq: "pow2 (- ?k + 1) = 1 / pow2 (?k - 1)" by (simp only: pow2_neg)
  have "x < 1 / pow2 (?k - 1)"
    using ylo assms P(2) by (simp add: field_simps)
  then have B: "x < pow2 (- ?k + 1)"
    by (simp only: eq)
  show ?thesis using False A B by (simp add: ilog2_def)
qed


lemma roundHalfEven_nearest: "\<bar>rat_of_int (roundHalfEven y) - y\<bar> \<le> 1 / 2"
proof -
  have "rat_of_int \<lfloor>y\<rfloor> \<le> y" "y < rat_of_int \<lfloor>y\<rfloor> + 1" by linarith+
  then show ?thesis by (auto simp: roundHalfEven_def Let_def)
qed

text \<open>
  The rounding leaves the doubles 0, 1 and 4 as they are. It is visible elsewhere: at
  instant 50004 in window 5 with 5 previous requests, \<^verbatim>\<open>4 / 5\<close> rounds up, \<^verbatim>\<open>1 - 0.8\<close> is
  below one fifth, and the weight is \<^verbatim>\<open>floor(0.9999999999999998) = 0\<close>, where exact
  arithmetic gives 1.
\<close>

lemma binary64_exact: "binary64 0 = 0" "binary64 1 = 1" "binary64 4 = 4"
  by (simp_all add: binary64_def ilog2_def pow2_def roundHalfEven_def compute_bitlen)

lemma binary64_four_fifths: "binary64 (4 / 5) = 3602879701896397 / 4503599627370496"
  by code_simp

lemma weightedPrevious_rounds: "weightedPrevious 50004 5 5 = Num 0"
  by code_simp

text \<open>
  C5 says that the weight is \<^verbatim>\<open>floor((1 - (now mod windowMs) / windowMs) * requestsInPrevious)\<close>.
  With a window of 10000 ms, at instant 25000 and 4 requests in the previous window, that
  is \<^verbatim>\<open>floor(0.5 * 4) = 2\<close>. The source divides by the window index 2:
  \<^verbatim>\<open>25000 % 2 = 0\<close>, so the weight is \<^verbatim>\<open>floor(1 * 4) = 4\<close> (every number here is exact in
  double arithmetic). A caller sees it: with limit 5, after four calls in window 1 the
  call at 25000 returns \<^verbatim>\<open>remaining = 5 - (1 + 4) = 0\<close>, where the weight 2 gives 2.
\<close>

theorem weightedPrevious_divides_by_index:
  "weightedPrevious 25000 (25000 div 10000) 4 = Num 4
   \<and> weightedPrevious_spec 25000 10000 4 = 2
   \<and> answer (calls (slidingWindow 5 10000) (Some Map.empty) ''X''
        [allAt 10000, allAt 10001, allAt 10002, allAt 10003, allAt 25000]) =
      Inr [\<lparr>success = True, limit = 5, remaining = Num 4, reset = 20000\<rparr>,
           \<lparr>success = True, limit = 5, remaining = Num 3, reset = 20000\<rparr>,
           \<lparr>success = True, limit = 5, remaining = Num 2, reset = 20000\<rparr>,
           \<lparr>success = True, limit = 5, remaining = Num 1, reset = 20000\<rparr>,
           \<lparr>success = True, limit = 5, remaining = Num 0, reset = 30000\<rparr>]"
  by (simp add: weightedPrevious_def weightedPrevious_spec_def js_rem_def answer_def
      slidingWindow_def isBlocked_def get_def incr_def cleanup_def set_c_def expire_def
      allAt_def Let_def windowKey_def number_to_string_digits binary64_exact)

text \<open>
  In window 0 the divisor is 0 and the weight is \<^verbatim>\<open>NaN\<close>: the call is rejected and its
  \<^verbatim>\<open>remaining\<close> is \<^verbatim>\<open>NaN\<close>.
\<close>

lemma slidingWindow_first_window:
  "answer (slidingWindow 10 10000 (Some Map.empty) ''X'' (allAt 5000)) =
     Inr \<lparr>success = False, limit = 10, remaining = NaN, reset = 10000\<rparr>"
  by (simp add: weightedPrevious_def answer_def
      slidingWindow_def isBlocked_def get_def incr_def cleanup_def set_c_def expire_def
      allAt_def Let_def windowKey_def number_to_string_digits)

section \<open>Token bucket\<close>

text \<open>
  A call that \<^verbatim>\<open>isBlocked\<close> does not block is admitted with \<^verbatim>\<open>remaining = 0\<close> and
  \<^verbatim>\<open>reset = 0\<close>, and writes nothing beyond what \<^verbatim>\<open>isBlocked\<close> did.
\<close>

lemma tokenBucket_admits:
  assumes "isBlocked c identifier (atIsBlocked t) = (c1, False, r)"
  shows "tokenBucket refillRate interval maxTokens (Some c) identifier t =
           Inr (Some c1, \<lparr>success = True, limit = maxTokens, remaining = Num 0, reset = 0\<rparr>)"
  using assms by (simp add: tokenBucket_def)

text \<open>
  C6 says that the token bucket computes and stores the refilled token count, returns
  \<^verbatim>\<open>remaining = max(0, floor(tokensNow - 1))\<close> and rejects a request when the bucket is
  empty. With \<^verbatim>\<open>maxTokens = 2\<close> and one token refilled per 10000 ms, three calls for \<^verbatim>\<open>X\<close>
  at instants 25000, 25001 and 25002 on an empty cache are all admitted with
  \<^verbatim>\<open>remaining = 0\<close> and \<^verbatim>\<open>reset = 0\<close>, and the cache is still empty afterwards; C6 gives
  \<^verbatim>\<open>remaining = 1\<close> for the first call and a rejection of the third.
\<close>

theorem tokenBucket_never_empties:
  "calls (tokenBucket 1 10000 2) (Some Map.empty) ''X'' [allAt 25000, allAt 25001, allAt 25002] =
     Inr (Some Map.empty,
          [\<lparr>success = True, limit = 2, remaining = Num 0, reset = 0\<rparr>,
           \<lparr>success = True, limit = 2, remaining = Num 0, reset = 0\<rparr>,
           \<lparr>success = True, limit = 2, remaining = Num 0, reset = 0\<rparr>])"
  by (simp add: tokenBucket_def isBlocked_def)

section \<open>The range of \<^verbatim>\<open>remaining\<close>\<close>

text \<open>
  C7 says that \<^verbatim>\<open>remaining\<close> is in \<open>[0, limit]\<close> in every verdict. A \<^verbatim>\<open>fixedWindow\<close> call with
  limit 1 for \<^verbatim>\<open>X\<close> at instant 25000 on an empty cache leaves the key of bucket 2 with
  value 1. On that cache \<^verbatim>\<open>cachedFixedWindow\<close> with limit 1 for \<^verbatim>\<open>X\<close> at instant 25001
  finds the key, increments it to 2 and returns \<^verbatim>\<open>remaining = 1 - 2 = -1\<close>: it has no
  \<^verbatim>\<open>Math.max(0, ...)\<close>.
\<close>

theorem cachedFixedWindow_remaining_negative:
  "entryAfter (fixedWindow 1 10000 (Some Map.empty) ''X'' (allAt 25000)) (windowKey ''X'' 2) =
     Some \<lparr>val = 1, expireAt = Some 35000\<rparr>
   \<and> answer (cachedFixedWindow 1 10000
        (Some [windowKey ''X'' 2 \<mapsto> \<lparr>val = 1, expireAt = Some 35000\<rparr>]) ''X'' (allAt 25001)) =
      Inr \<lparr>success = False, limit = 1, remaining = Num (- 1), reset = 30000\<rparr>"
  by (simp add: entryAfter_def answer_def fixedWindow_def cachedFixedWindow_def isBlocked_def
      get_def incr_def cleanup_def set_c_def expire_def allAt_def Let_def)

end
